theory Spec2Isabelle
  imports Main
begin

section \<open>Python strings\<close>

text \<open>
  The contact extractor of \<^verbatim>\<open>document_converter_fixed.py\<close> works on Python
  \<^verbatim>\<open>str\<close> values, which are sequences of code points. A string of the model is a
  HOL \<^typ>\<open>string\<close> whose characters are read as the code points 0 to 255, and
  \<^const>\<open>length\<close> counts code points as \<^verbatim>\<open>len\<close> does. The character classes
  below are Python's on that range.
\<close>

definition code :: "char \<Rightarrow> nat" where
  "code c = of_char c"

definition between :: "nat \<Rightarrow> nat \<Rightarrow> char \<Rightarrow> bool" where
  "between lo hi c = (lo \<le> code c \<and> code c \<le> hi)"

text \<open>\<^verbatim>\<open>str.isspace\<close>, which \<^verbatim>\<open>strip\<close>, \<^verbatim>\<open>split\<close> and the regular
  expression class \<^verbatim>\<open>\s\<close> all use: tab to carriage return, the four separators
  28 to 31, the space, NEL and the no-break space.\<close>

definition isspace :: "char \<Rightarrow> bool" where
  "isspace c = (between 9 13 c \<or> between 28 32 c \<or> code c = 133 \<or> code c = 160)"

definition isupper :: "char \<Rightarrow> bool" where
  "isupper c = (between 65 90 c \<or> (between 192 222 c \<and> code c \<noteq> 215))"

definition ascii_letter :: "char \<Rightarrow> bool" where
  "ascii_letter c = (between 65 90 c \<or> between 97 122 c)"

text \<open>The class \<^verbatim>\<open>\d\<close>: the decimal digits.\<close>

definition digit :: "char \<Rightarrow> bool" where
  "digit c = between 48 57 c"

text \<open>The class \<^verbatim>\<open>\w\<close> that \<^verbatim>\<open>\b\<close> is defined from: the alphanumeric
  characters and the underscore.\<close>

definition word_char :: "char \<Rightarrow> bool" where
  "word_char c =
     (digit c \<or> ascii_letter c \<or> code c = 95 \<or>
      code c \<in> {170, 178, 179, 181, 185, 186, 188, 189, 190} \<or>
      (192 \<le> code c \<and> code c \<noteq> 215 \<and> code c \<noteq> 247))"

definition lower_char :: "char \<Rightarrow> char" where
  "lower_char c = (if isupper c then char_of (code c + 32) else c)"

definition lower :: "string \<Rightarrow> string" where
  "lower s = map lower_char s"

definition strip :: "string \<Rightarrow> string" where
  "strip s = rev (dropWhile isspace (rev (dropWhile isspace s)))"

text \<open>\<^verbatim>\<open>str.split()\<close> with no argument: the maximal runs of characters that are
  not whitespace. The first argument is the run read so far.\<close>

primrec split_from :: "string \<Rightarrow> string \<Rightarrow> string list" where
  "split_from w [] = (if w = [] then [] else [w])"
| "split_from w (c # cs) =
     (if isspace c then (if w = [] then split_from [] cs else w # split_from [] cs)
      else split_from (w @ [c]) cs)"

definition split :: "string \<Rightarrow> string list" where
  "split s = split_from [] s"

text \<open>\<^verbatim>\<open>sep.join(xs)\<close>.\<close>

fun join :: "string \<Rightarrow> string list \<Rightarrow> string" where
  "join sep [] = []"
| "join sep [x] = x"
| "join sep (x # y # ys) = x @ sep @ join sep (y # ys)"

primrec starts_with :: "string \<Rightarrow> string \<Rightarrow> bool" where
  "starts_with [] s = True"
| "starts_with (c # cs) s = (case s of [] \<Rightarrow> False | d # ds \<Rightarrow> c = d \<and> starts_with cs ds)"

text \<open>The operator \<^verbatim>\<open>sub in s\<close> on strings: \<open>sub\<close> occurs in \<open>s\<close> as a
  contiguous piece.\<close>

primrec contains :: "string \<Rightarrow> string \<Rightarrow> bool" where
  "contains sub [] = (sub = [])"
| "contains sub (c # cs) = (starts_with sub (c # cs) \<or> contains sub cs)"

text \<open>\<^verbatim>\<open>any(w in s for w in ws)\<close>.\<close>

definition any_in :: "string list \<Rightarrow> string \<Rightarrow> bool" where
  "any_in ws s = list_ex (\<lambda>w. contains w s) ws"

text \<open>Decimal notation of a natural number, as the f-string \<^verbatim>\<open>f"field_{i}"\<close>
  prints it.\<close>

fun str_nat :: "nat \<Rightarrow> string" where
  "str_nat n =
     (if n < 10 then [char_of (48 + n)]
      else str_nat (n div 10) @ [char_of (48 + n mod 10)])"

text \<open>\<^verbatim>\<open>xs[i]\<close> for an index that is not negative; \<open>None\<close> is the IndexError.\<close>

definition index :: "'a list \<Rightarrow> nat \<Rightarrow> 'a option" where
  "index xs i = (if i < length xs then Some (xs ! i) else None)"


section \<open>Regular expressions\<close>

text \<open>
  The patterns of the source are sequences of four kinds of items: a character class
  repeated between \<open>lo\<close> and \<open>hi\<close> times (\<open>None\<close>: no upper bound), greedily; the word
  boundary \<^verbatim>\<open>\b\<close>; the anchors \<^verbatim>\<open>^\<close> and \<^verbatim>\<open>$\<close>. None of them has a group or
  an alternative.
\<close>

datatype atom =
    Rep "char \<Rightarrow> bool" nat "nat option"
  | WordB
  | Bol
  | Eol

definition one :: "char \<Rightarrow> atom" where
  "one c = Rep (\<lambda>x. x = c) 1 (Some 1)"

definition times :: "nat \<Rightarrow> (char \<Rightarrow> bool) \<Rightarrow> atom" where
  "times n cls = Rep cls n (Some n)"

definition opt :: "(char \<Rightarrow> bool) \<Rightarrow> atom" where
  "opt cls = Rep cls 0 (Some 1)"

definition plus :: "(char \<Rightarrow> bool) \<Rightarrow> atom" where
  "plus cls = Rep cls 1 None"

definition is_word :: "char option \<Rightarrow> bool" where
  "is_word p = (case p of None \<Rightarrow> False | Some c \<Rightarrow> word_char c)"

definition next_char :: "string \<Rightarrow> char option" where
  "next_char s = (case s of [] \<Rightarrow> None | c # _ \<Rightarrow> Some c)"

definition dec :: "nat option \<Rightarrow> nat option" where
  "dec hi = (case hi of None \<Rightarrow> None | Some n \<Rightarrow> Some (n - 1))"

text \<open>
  The backtracking matcher. \<open>match_here as p s\<close> matches the items \<open>as\<close> at a position
  of the subject whose preceding character is \<open>p\<close> (\<open>None\<close> at the start of the subject)
  and whose remaining text is \<open>s\<close>. It returns what is left of \<open>s\<close> after the first match
  in the order a backtracking engine tries them: a repetition takes as many characters
  as it can and gives them back one at a time.
\<close>

function match_here :: "atom list \<Rightarrow> char option \<Rightarrow> string \<Rightarrow> string option" where
  "match_here [] p s = Some s"
| "match_here (WordB # as) p s =
     (if is_word p \<noteq> is_word (next_char s) then match_here as p s else None)"
| "match_here (Bol # as) p s = (if p = None then match_here as p s else None)"
| "match_here (Eol # as) p s =
     (if s = [] \<or> s = [CHR 0x0A] then match_here as p s else None)"
| "match_here (Rep cls lo hi # as) p [] = (if lo = 0 then match_here as p [] else None)"
| "match_here (Rep cls lo hi # as) p (c # cs) =
     (if cls c \<and> hi \<noteq> Some 0 then
        (case match_here (Rep cls (lo - 1) (dec hi) # as) (Some c) cs of
           Some r \<Rightarrow> Some r
         | None \<Rightarrow> (if lo = 0 then match_here as p (c # cs) else None))
      else if lo = 0 then match_here as p (c # cs) else None)"
  by pat_completeness auto
termination
  by (relation "measure (\<lambda>(as, p, s). length as + length s)") auto

text \<open>\<^verbatim>\<open>re.match(pattern, s)\<close> as a truth value.\<close>

definition re_match :: "atom list \<Rightarrow> string \<Rightarrow> bool" where
  "re_match as s = (match_here as None s \<noteq> None)"

text \<open>
  \<^verbatim>\<open>re.findall(pattern, s)\<close> for a pattern without groups: the matched texts, from
  left to right, not overlapping. \<open>skip\<close> is the number of characters still covered by
  the previous match.
\<close>

fun findall_from :: "atom list \<Rightarrow> char option \<Rightarrow> nat \<Rightarrow> string \<Rightarrow> string list" where
  "findall_from as p skip [] =
     (case match_here as p [] of None \<Rightarrow> [] | Some r \<Rightarrow> [[]])"
| "findall_from as p skip (c # cs) =
     (if 0 < skip then findall_from as (Some c) (skip - 1) cs
      else
        (case match_here as p (c # cs) of
           None \<Rightarrow> findall_from as (Some c) 0 cs
         | Some r \<Rightarrow>
             take (length (c # cs) - length r) (c # cs)
               # findall_from as (Some c) (length (c # cs) - length r - 1) cs))"

definition findall :: "atom list \<Rightarrow> string \<Rightarrow> string list" where
  "findall as s = findall_from as None 0 s"


section \<open>Person names\<close>

definition non_person_words :: "string list" where
  "non_person_words =
     [''return'', ''normal'', ''operations'', ''activate'', ''section'', ''page'', ''step'',
      ''procedure'', ''process'', ''system'', ''tool'', ''application'', ''recovery'',
      ''business'', ''continuity'', ''plan'', ''when'', ''if'', ''the'', ''this'', ''that'',
      ''contact'', ''engage'', ''determine'', ''communicate'', ''situation'', ''team'',
      ''activation'', ''equipment'', ''outage'', ''building'', ''location'', ''personnel'']"

text \<open>The class \<^verbatim>\<open>[A-Za-z\s\.\-\']\<close>.\<close>

definition name_char :: "char \<Rightarrow> bool" where
  "name_char c =
     (ascii_letter c \<or> isspace c \<or> c = CHR ''.'' \<or> c = CHR ''-'' \<or> c = CHR 0x27)"

text \<open>The pattern \<^verbatim>\<open>^[A-Za-z\s\.\-\']+$\<close>.\<close>

definition name_pattern :: "atom list" where
  "name_pattern = [Bol, plus name_char, Eol]"

definition word_ok :: "string \<Rightarrow> bool" where
  "word_ok w = (2 \<le> length w \<and> length w \<le> 20)"

definition is_person_name :: "string \<Rightarrow> bool" where
  "is_person_name text =
     (if text = [] \<or> length text < 2 then False
      else if any_in non_person_words (lower text) then False
      else if 50 < length text then False
      else if \<not> re_match name_pattern text then False
      else if \<not> list_ex isupper text then False
      else if length (split text) < 2 \<or> 4 < length (split text) then False
      else list_all word_ok (split text))"


section \<open>Contact tables\<close>

text \<open>A table is the list of its rows, a row the list of its cells.\<close>

type_synonym row = "string list"
type_synonym table = "row list"

definition row_text :: "row \<Rightarrow> string" where
  "row_text row = lower (join '' '' row)"

definition contact_headers :: "string list" where
  "contact_headers =
     [''name'', ''title'', ''phone'', ''mobile'', ''email'', ''contact'', ''role'',
      ''team member'']"

text \<open>The loop over \<^verbatim>\<open>table_data[1:6]\<close> that counts the rows whose first cell is
  a person name; \<open>None\<close> stands for an IndexError of \<^verbatim>\<open>row[0]\<close>.\<close>

fun count_persons :: "table \<Rightarrow> nat \<Rightarrow> nat option" where
  "count_persons [] person_count = Some person_count"
| "count_persons (row # rows) person_count =
     (if row \<noteq> [] \<and> 0 < length row then
        (case index row 0 of
           None \<Rightarrow> None
         | Some cell \<Rightarrow>
             (if is_person_name (strip cell) then count_persons rows (person_count + 1)
              else count_persons rows person_count))
      else count_persons rows person_count)"

definition is_contact_table :: "table \<Rightarrow> bool option" where
  "is_contact_table table_data =
     (if table_data = [] \<or> length table_data < 2 then Some False
      else if \<not> list_ex (\<lambda>b. b)
                 (map (\<lambda>row. any_in contact_headers (row_text row)) (take 3 table_data))
      then Some False
      else
        (case count_persons (take 5 (drop 1 table_data)) 0 of
           None \<Rightarrow> None
         | Some person_count \<Rightarrow> Some (2 \<le> person_count)))"


section \<open>Contact records\<close>

record contact =
  type :: string
  name :: string
  title :: string
  phone :: "string list"
  mobile :: "string list"
  email :: "string list"
  location :: string
  description :: string
  raw_data :: row

definition new_contact :: "row \<Rightarrow> contact" where
  "new_contact row =
     \<lparr>type = ''team_member'', name = [], title = [], phone = [], mobile = [], email = [],
      location = [], description = [], raw_data = row\<rparr>"

text \<open>The pattern \<^verbatim>\<open>\b[A-Za-z0-9._%+-]+@[A-Za-z0-9.-]+\.[A-Z|a-z]{2,}\b\<close>.\<close>

definition email_local :: "char \<Rightarrow> bool" where
  "email_local c = (ascii_letter c \<or> digit c \<or> c \<in> set ''._%+-'')"

definition email_domain :: "char \<Rightarrow> bool" where
  "email_domain c = (ascii_letter c \<or> digit c \<or> c \<in> set ''.-'')"

definition email_tld :: "char \<Rightarrow> bool" where
  "email_tld c = (ascii_letter c \<or> c = CHR ''|'')"

definition email_pattern :: "atom list" where
  "email_pattern =
     [WordB, plus email_local, one CHR ''@'', plus email_domain, one CHR ''.'',
      Rep email_tld 2 None, WordB]"

text \<open>The class \<^verbatim>\<open>[-.\s]\<close> and the four phone patterns
  \<^verbatim>\<open>\b\d{3}[-.\s]?\d{3}[-.\s]?\d{4}\b\<close>,
  \<^verbatim>\<open>\(\d{3}\)\s?\d{3}[-.\s]?\d{4}\<close>,
  \<^verbatim>\<open>\b1[-.\s]?\d{3}[-.\s]?\d{3}[-.\s]?\d{4}\b\<close> and
  \<^verbatim>\<open>\+\d{1,3}[-.\s]?\d{3}[-.\s]?\d{3}[-.\s]?\d{4}\<close>.\<close>

definition sep :: "char \<Rightarrow> bool" where
  "sep c = (c = CHR ''-'' \<or> c = CHR ''.'' \<or> isspace c)"

definition phone_patterns :: "atom list list" where
  "phone_patterns =
     [[WordB, times 3 digit, opt sep, times 3 digit, opt sep, times 4 digit, WordB],
      [one CHR ''('', times 3 digit, one CHR '')'', opt isspace, times 3 digit, opt sep,
       times 4 digit],
      [WordB, one CHR ''1'', opt sep, times 3 digit, opt sep, times 3 digit, opt sep,
       times 4 digit, WordB],
      [one CHR ''+'', Rep digit 1 (Some 3), opt sep, times 3 digit, opt sep, times 3 digit,
       opt sep, times 4 digit]]"

definition find_emails :: "string \<Rightarrow> string list" where
  "find_emails cell = findall email_pattern cell"

definition find_phones :: "string \<Rightarrow> string list" where
  "find_phones cell = concat (map (\<lambda>pattern. findall pattern cell) phone_patterns)"

text \<open>
  The chain of branches that maps one cell to the fields of the record. \<open>i\<close> is the
  index of the cell, \<open>n\<close> the length of the row, \<open>cell\<close> the stripped text, \<open>emails\<close>
  and \<open>phones\<close> what the patterns found in it, and \<open>c\<close> the record after the emails
  have been added.
\<close>

definition assign_field ::
  "nat \<Rightarrow> nat \<Rightarrow> string \<Rightarrow> string \<Rightarrow> string list \<Rightarrow> string list \<Rightarrow> contact \<Rightarrow> contact" where
  "assign_field i n header cell emails phones c =
     (if i = 0 \<or> contains ''name'' header then c\<lparr>name := cell\<rparr>
      else if i = 1 \<or> contains ''title'' header \<or> contains ''role'' header then c\<lparr>title := cell\<rparr>
      else if contains ''phone'' header \<and> \<not> contains ''mobile'' header then
        (if phones \<noteq> [] then c\<lparr>phone := phone c @ phones\<rparr>
         else if emails = [] \<and> 5 < length cell then c\<lparr>phone := phone c @ [cell]\<rparr>
         else c)
      else if contains ''mobile'' header \<or> contains ''cell'' header then
        (if phones \<noteq> [] then c\<lparr>mobile := mobile c @ phones\<rparr>
         else if emails = [] \<and> 5 < length cell then c\<lparr>mobile := mobile c @ [cell]\<rparr>
         else c)
      else if contains ''location'' header \<or> contains ''site'' header then c\<lparr>location := cell\<rparr>
      else if contains ''description'' header \<or> contains ''notes'' header then
        c\<lparr>description := cell\<rparr>
      else if contains ''email'' header then
        (if emails = [] then c\<lparr>email := email c @ [cell]\<rparr> else c)
      else if emails \<noteq> [] then c\<lparr>email := email c @ emails\<rparr>
      else if phones \<noteq> [] then
        (if contains ''mobile'' (lower cell) \<or> 0 < length (phone c)
         then c\<lparr>mobile := mobile c @ phones\<rparr>
         else c\<lparr>phone := phone c @ phones\<rparr>)
      else if int i = int n - 1 \<and> 10 < length cell then
        (if location c = [] \<and> any_in [''office'', ''building'', ''floor'', ''room''] (lower cell)
         then c\<lparr>location := cell\<rparr>
         else if description c = [] then c\<lparr>description := cell\<rparr>
         else c)
      else c)"

text \<open>The body of the loop over the cells, for a cell that is not blank.\<close>

definition map_cell :: "nat \<Rightarrow> nat \<Rightarrow> string \<Rightarrow> string \<Rightarrow> contact \<Rightarrow> contact" where
  "map_cell i n header cell c =
     (let emails = find_emails cell;
          c1 = (if emails \<noteq> [] then c\<lparr>email := email c @ emails\<rparr> else c);
          phones = find_phones cell
      in assign_field i n header cell emails phones c1)"

text \<open>The loop \<^verbatim>\<open>for i, cell in enumerate(row)\<close>: it stops at the first index
  that has no header and passes over blank cells. \<open>None\<close> stands for an IndexError of
  \<^verbatim>\<open>headers[i]\<close>.\<close>

fun map_cells :: "string list \<Rightarrow> nat \<Rightarrow> nat \<Rightarrow> row \<Rightarrow> contact \<Rightarrow> contact option" where
  "map_cells headers n i [] c = Some c"
| "map_cells headers n i (cell # cells) c =
     (if length headers \<le> i then Some c
      else if strip cell = [] then map_cells headers n (i + 1) cells c
      else
        (case (if i < length headers then index headers i else Some (''field_'' @ str_nat i)) of
           None \<Rightarrow> None
         | Some header \<Rightarrow> map_cells headers n (i + 1) cells (map_cell i n header (strip cell) c)))"

text \<open>The record built from one row.\<close>

definition row_contact :: "string list \<Rightarrow> row \<Rightarrow> contact option" where
  "row_contact headers row = map_cells headers (length row) 0 row (new_contact row)"

text \<open>The loop over the data rows. A blank row is passed over, and so is a row whose
  first cell is not a person name; the record of a row is kept when its name is.\<close>

fun extract_rows :: "string list \<Rightarrow> table \<Rightarrow> contact list option" where
  "extract_rows headers [] = Some []"
| "extract_rows headers (row # rows) =
     (if \<not> list_ex (\<lambda>cell. strip cell \<noteq> []) row then extract_rows headers rows
      else if row = [] then extract_rows headers rows
      else
        (case index row 0 of
           None \<Rightarrow> None
         | Some cell \<Rightarrow>
             (if \<not> is_person_name (strip cell) then extract_rows headers rows
              else
                (case row_contact headers row of
                   None \<Rightarrow> None
                 | Some c \<Rightarrow>
                     (case extract_rows headers rows of
                        None \<Rightarrow> None
                      | Some contacts \<Rightarrow>
                          (if name c \<noteq> [] \<and> is_person_name (name c) then Some (c # contacts)
                           else Some contacts))))))"

definition header_words :: "string list" where
  "header_words = [''name'', ''title'', ''phone'', ''mobile'', ''email'', ''contact'']"

text \<open>The search for the header row: \<^verbatim>\<open>headers\<close> and \<^verbatim>\<open>header_row_index\<close>
  when the loop over \<^verbatim>\<open>enumerate(table_data)\<close> ends, started at index \<open>i\<close>.\<close>

fun find_header :: "table \<Rightarrow> nat \<Rightarrow> string list \<times> int" where
  "find_header [] i = ([], - 1)"
| "find_header (row # rows) i =
     (if any_in header_words (row_text row) then (map (\<lambda>col. strip (lower col)) row, int i)
      else find_header rows (i + 1))"

text \<open>The headers and the index of the first data row, \<^verbatim>\<open>start_row\<close>; \<open>None\<close>
  stands for an IndexError of \<^verbatim>\<open>table_data[0]\<close>.\<close>

definition locate_headers :: "table \<Rightarrow> (string list \<times> nat) option" where
  "locate_headers table_data =
     (let (headers, header_row_index) = find_header table_data 0 in
      (case (if header_row_index = - 1 then
               (case index table_data 0 of
                  None \<Rightarrow> None
                | Some row0 \<Rightarrow>
                    (if 3 \<le> length row0 then
                       Some ([''name'', ''title'', ''contact_info'']
                             @ map (\<lambda>i. ''field_'' @ str_nat i) [3 ..< length row0])
                     else Some headers))
             else Some headers) of
         None \<Rightarrow> None
       | Some headers' \<Rightarrow>
           Some (headers', if 0 \<le> header_row_index then nat (header_row_index + 1) else 0)))"

definition extract_contact_table :: "table \<Rightarrow> contact list option" where
  "extract_contact_table table_data =
     (case is_contact_table table_data of
        None \<Rightarrow> None
      | Some False \<Rightarrow> Some []
      | Some True \<Rightarrow>
          (case locate_headers table_data of
             None \<Rightarrow> None
           | Some (headers, start_row) \<Rightarrow> extract_rows headers (drop start_row table_data)))"



section \<open>Notions used to state the properties\<close>

text \<open>
  A row counts as a person row when it has a first cell and the stripped text of that
  cell is a person name.
\<close>

definition person_row :: "row \<Rightarrow> bool" where
  "person_row row = (case row of [] \<Rightarrow> False | cell # _ \<Rightarrow> is_person_name (strip cell))"

text \<open>
  An alphabetic token: ASCII letters only, between 2 and 20 of them.
\<close>

definition alpha_token :: "string \<Rightarrow> bool" where
  "alpha_token w = (list_all ascii_letter w \<and> word_ok w)"

text \<open>
  The cells of a header row as the extractor records them, the rows that hold none of
  the six words the header search looks for, and the positional headers for a first row
  of \<open>n\<close> columns.
\<close>

definition header_of :: "row \<Rightarrow> string list" where
  "header_of row = map (\<lambda>col. strip (lower col)) row"

definition no_header_word :: "row \<Rightarrow> bool" where
  "no_header_word row = (\<not> any_in header_words (row_text row))"

definition positional_headers :: "nat \<Rightarrow> string list" where
  "positional_headers n =
     [''name'', ''title'', ''contact_info''] @ map (\<lambda>i. ''field_'' @ str_nat i) [3 ..< n]"

text \<open>
  The words that the field mapping looks for in a column header.
\<close>

definition field_words :: "string list" where
  "field_words =
     [''name'', ''title'', ''role'', ''phone'', ''mobile'', ''cell'', ''location'', ''site'',
      ''description'', ''notes'', ''email'']"

text \<open>
  Tables and records of the examples.
\<close>

definition staff_table :: table where
  "staff_table =
     [[''Name'', ''Title'', ''Phone''], [''Jane Smith'', ''Team Lead'', ''555-123-4567''],
      [''Robert Jones'', ''Analyst'', ''555-987-6543'']]"

definition role_table :: table where
  "role_table =
     [[''Team Member'', ''Role'', ''Ext''], [''Jane Smith'', ''Lead'', ''555-123-4567''],
      [''Robert Jones'', ''Analyst'', ''555-987-6543'']]"

definition narrow_role_table :: table where
  "narrow_role_table =
     [[''Team Member'', ''Role''], [''Jane Smith'', ''Lead''], [''Robert Jones'', ''Analyst'']]"

definition mail_table :: table where
  "mail_table =
     [[''Name'', ''Role'', ''Phone''],
      [''Jane Smith'', ''Lead jane@example.com'', ''555-123-4567''],
      [''Robert Jones'', ''Analyst'', ''555-987-6543'']]"

definition jane_record :: contact where
  "jane_record =
     \<lparr>type = ''team_member'', name = ''Jane Smith'', title = ''Lead jane@example.com'',
      phone = [''555-123-4567''], mobile = [], email = [''jane@example.com''], location = [],
      description = [], raw_data = [''Jane Smith'', ''Lead jane@example.com'', ''555-123-4567'']\<rparr>"

definition robert_record :: contact where
  "robert_record =
     \<lparr>type = ''team_member'', name = ''Robert Jones'', title = ''Analyst'',
      phone = [''555-987-6543''], mobile = [], email = [], location = [],
      description = [], raw_data = [''Robert Jones'', ''Analyst'', ''555-987-6543'']\<rparr>"


section \<open>Auxiliary facts\<close>


subsection \<open>Strings and patterns\<close>

lemma any_in_iff: "any_in ws s \<longleftrightarrow> (\<exists>w\<in>set ws. contains w s)"
  by (simp add: any_in_def list_ex_iff)

lemma starts_with_iff: "starts_with w s \<longleftrightarrow> (\<exists>ss. s = w @ ss)"
  by (induction w arbitrary: s) (auto split: list.splits)

lemma contains_iff: "contains w s \<longleftrightarrow> (\<exists>ps ss. s = ps @ w @ ss)"
proof (induction s)
  case Nil
  show ?case by auto
next
  case (Cons c cs)
  show ?case
  proof
    assume "contains w (c # cs)"
    then consider "starts_with w (c # cs)" | "contains w cs" by auto
    then show "\<exists>ps ss. c # cs = ps @ w @ ss"
    proof cases
      case 1
      then obtain ss where "c # cs = w @ ss" using starts_with_iff by blast
      then have "c # cs = [] @ w @ ss" by simp
      then show ?thesis by blast
    next
      case 2
      then obtain ps ss where "cs = ps @ w @ ss" using Cons.IH by blast
      then have "c # cs = (c # ps) @ w @ ss" by simp
      then show ?thesis by blast
    qed
  next
    assume "\<exists>ps ss. c # cs = ps @ w @ ss"
    then obtain ps ss where e: "c # cs = ps @ w @ ss" by blast
    show "contains w (c # cs)"
    proof (cases ps)
      case Nil
      with e have "starts_with w (c # cs)" using starts_with_iff by auto
      then show ?thesis by simp
    next
      case (Cons p ps')
      with e have "cs = ps' @ w @ ss" by simp
      then have "contains w cs" using Cons.IH by blast
      then show ?thesis by simp
    qed
  qed
qed

lemma contains_lower: "contains w s \<Longrightarrow> contains (lower w) (lower s)"
proof -
  assume "contains w s"
  then obtain ps ss where "s = ps @ w @ ss" using contains_iff by blast
  then have "lower s = lower ps @ lower w @ lower ss" by (simp add: lower_def)
  then show ?thesis using contains_iff by blast
qed

lemma non_person_words_lower: "list_all (\<lambda>w. lower w = w) non_person_words"
  by code_simp

lemma any_in_lower:
  assumes "any_in non_person_words s"
  shows "any_in non_person_words (lower s)"
proof -
  from assms obtain w where w: "w \<in> set non_person_words" "contains w s"
    by (auto simp: any_in_iff)
  then have "lower w = w" using non_person_words_lower by (simp add: list_all_iff)
  with w contains_lower [of w s] show ?thesis by (auto simp: any_in_iff)
qed

lemma match_plus_all:
  "list_all cls s \<Longrightarrow> lo \<le> length s \<Longrightarrow> match_here [Rep cls lo None, Eol] p s = Some []"
proof (induction s arbitrary: lo p)
  case Nil
  then show ?case by simp
next
  case (Cons c cs)
  then have "match_here [Rep cls (lo - 1) None, Eol] (Some c) cs = Some []" by simp
  with Cons.prems show ?case by (simp add: dec_def)
qed

lemma match_plus_only:
  "match_here [Rep cls lo hi, Eol] p s = Some r \<Longrightarrow> cls (CHR 0x0A) \<Longrightarrow> list_all cls s"
proof (induction s arbitrary: lo hi p r)
  case Nil
  then show ?case by simp
next
  case (Cons c cs)
  show ?case
  proof (cases "cls c \<and> hi \<noteq> Some 0")
    case True
    show ?thesis
    proof (cases "match_here [Rep cls (lo - 1) (dec hi), Eol] (Some c) cs")
      case None
      with True Cons.prems show ?thesis by (auto split: if_splits)
    next
      case (Some r')
      then have "list_all cls cs" using Cons.IH Cons.prems(2) by blast
      with True show ?thesis by simp
    qed
  next
    case False
    with Cons.prems show ?thesis by (auto split: if_splits)
  qed
qed

lemma re_match_name_pattern: "re_match name_pattern s \<longleftrightarrow> s \<noteq> [] \<and> list_all name_char s"
proof
  assume m: "re_match name_pattern s"
  then obtain r where r: "match_here [Rep name_char 1 None, Eol] None s = Some r"
    by (auto simp: re_match_def name_pattern_def plus_def)
  have nl: "name_char (CHR 0x0A)" by code_simp
  from r have "s \<noteq> []" by auto
  with match_plus_only [OF r nl] show "s \<noteq> [] \<and> list_all name_char s" by simp
next
  assume "s \<noteq> [] \<and> list_all name_char s"
  then have "list_all name_char s" "1 \<le> length s" by (auto simp: Suc_le_eq)
  then have "match_here [Rep name_char 1 None, Eol] None s = Some []"
    by (rule match_plus_all)
  then show "re_match name_pattern s" by (simp add: re_match_def name_pattern_def plus_def)
qed

lemma split_from_run:
  "list_all (\<lambda>c. \<not> isspace c) u \<Longrightarrow> split_from w (u @ rest) = split_from (w @ u) rest"
  by (induction u arbitrary: w) auto

lemma space_isspace: "isspace CHR '' ''"
  by code_simp

lemma split_join:
  "list_all (\<lambda>w. w \<noteq> [] \<and> list_all (\<lambda>c. \<not> isspace c) w) ws \<Longrightarrow> split (join '' '' ws) = ws"
proof (induction "'' ''" ws rule: join.induct)
  case 1
  show ?case by (simp add: split_def)
next
  case (2 x)
  then have "split_from [] (x @ []) = split_from ([] @ x) []" by (intro split_from_run) simp
  with 2 show ?case by (simp add: split_def)
next
  case (3 x y ys)
  then have x: "x \<noteq> []" "list_all (\<lambda>c. \<not> isspace c) x" by auto
  have ih: "split_from [] (join '' '' (y # ys)) = y # ys"
    using 3 by (simp add: split_def)
  have "split_from [] (x @ CHR '' '' # join '' '' (y # ys)) =
        split_from ([] @ x) (CHR '' '' # join '' '' (y # ys))"
    using x(2) by (rule split_from_run)
  also have "\<dots> = x # split_from [] (join '' '' (y # ys))"
    using x(1) by (simp add: space_isspace)
  finally show ?case using ih by (simp add: split_def)
qed

lemma list_all_join:
  "list_all P sp \<Longrightarrow> list_all (list_all P) ws \<Longrightarrow> list_all P (join sp ws)"
  by (induction sp ws rule: join.induct) auto

lemma ascii_letter_not_space: "ascii_letter c \<Longrightarrow> \<not> isspace c"
  by (auto simp: ascii_letter_def isspace_def between_def)

lemma ascii_letter_name_char: "ascii_letter c \<Longrightarrow> name_char c"
  by (simp add: name_char_def)

lemma digit_not_name_char: "digit c \<Longrightarrow> \<not> name_char c"
  by (auto simp: digit_def name_char_def ascii_letter_def isspace_def between_def code_def)

lemma underscore_not_name_char: "\<not> name_char CHR ''_''"
  by code_simp


subsection \<open>The loops never fail\<close>

lemma index_Cons_0: "index (x # xs) 0 = Some x"
  by (simp add: index_def)

lemma person_row_iff:
  "person_row row \<longleftrightarrow> (\<exists>cell cells. row = cell # cells \<and> is_person_name (strip cell))"
  by (cases row) (simp_all add: person_row_def)

lemma count_persons_filter:
  "count_persons rows n = Some (n + length (filter person_row rows))"
proof (induction rows arbitrary: n)
  case Nil
  show ?case by simp
next
  case (Cons row rows)
  show ?case
  proof (cases row)
    case Nil
    then show ?thesis using Cons.IH by (simp add: person_row_def)
  next
    case (Cons cell cells)
    then show ?thesis using Cons.IH by (simp add: person_row_def index_Cons_0)
  qed
qed

lemma person_rows_card:
  "length (filter P (take 5 (drop 1 t))) =
   card {i. 1 \<le> i \<and> i \<le> 5 \<and> i < length t \<and> P (t ! i)}"
proof -
  let ?xs = "take 5 (drop 1 t)"
  let ?A = "{j. j < length ?xs \<and> P (?xs ! j)}"
  let ?B = "{i. 1 \<le> i \<and> i \<le> 5 \<and> i < length t \<and> P (t ! i)}"
  have "?B = Suc ` ?A"
  proof (rule set_eqI)
    fix i
    show "i \<in> ?B \<longleftrightarrow> i \<in> Suc ` ?A"
    proof
      assume "i \<in> ?B"
      then have i: "1 \<le> i" "i \<le> 5" "i < length t" "P (t ! i)" by auto
      then obtain j where j: "i = Suc j" by (cases i) auto
      with i have "j < length ?xs" "P (?xs ! j)" by auto
      with j show "i \<in> Suc ` ?A" by blast
    next
      assume "i \<in> Suc ` ?A"
      then obtain j where j: "i = Suc j" "j < length ?xs" "P (?xs ! j)" by blast
      then show "i \<in> ?B" by auto
    qed
  qed
  then have "card ?B = card ?A" by (simp add: card_image)
  then show ?thesis by (simp only: length_filter_conv_card)
qed

lemma is_contact_table_total: "\<exists>b. is_contact_table t = Some b"
  by (auto simp: is_contact_table_def count_persons_filter)

lemma is_contact_table_cases:
  "is_contact_table t = Some True \<or> is_contact_table t = Some False"
  using is_contact_table_total [of t] by auto

lemma map_cells_total: "\<exists>c'. map_cells headers n i cells c = Some c'"
proof (induction cells arbitrary: i c)
  case Nil
  show ?case by simp
next
  case (Cons cell cells)
  show ?case using Cons.IH by (simp add: index_def)
qed

lemma extract_rows_total: "\<exists>contacts. extract_rows headers rows = Some contacts"
proof (induction rows)
  case Nil
  show ?case by simp
next
  case (Cons row rows)
  then obtain contacts where r: "extract_rows headers rows = Some contacts" by blast
  obtain c where c: "row_contact headers row = Some c"
    unfolding row_contact_def using map_cells_total [of headers "length row" 0 row "new_contact row"]
    by blast
  show ?case using r c
    by (cases row) (auto simp: index_Cons_0)
qed

lemma locate_headers_total: "table_data \<noteq> [] \<Longrightarrow> \<exists>h. locate_headers table_data = Some h"
  by (cases table_data) (auto simp: locate_headers_def index_Cons_0 split: prod.splits)


subsection \<open>The header search\<close>

lemma find_header_none:
  "list_all no_header_word rows \<Longrightarrow> find_header rows i = ([], - 1)"
  by (induction rows arbitrary: i) (auto simp: no_header_word_def)

lemma find_header_first:
  "k < length rows \<Longrightarrow> any_in header_words (row_text (rows ! k)) \<Longrightarrow>
   list_all no_header_word (take k rows) \<Longrightarrow>
   find_header rows i = (header_of (rows ! k), int (i + k))"
proof (induction rows arbitrary: i k)
  case Nil
  then show ?case by simp
next
  case (Cons row rows)
  show ?case
  proof (cases k)
    case 0
    with Cons.prems show ?thesis by (simp add: header_of_def)
  next
    case (Suc j)
    with Cons.prems have "find_header rows (i + 1) = (header_of (rows ! j), int (i + 1 + j))"
      by (intro Cons.IH) auto
    with Suc Cons.prems show ?thesis by (simp add: no_header_word_def)
  qed
qed

lemma map_cells_no_headers: "map_cells [] n i cells c = Some c"
  by (cases cells) simp_all

lemma extract_rows_no_headers: "extract_rows [] rows = Some []"
proof (induction rows)
  case Nil
  show ?case by simp
next
  case (Cons row rows)
  have "row_contact [] row = Some (new_contact row)"
    by (simp add: row_contact_def map_cells_no_headers)
  moreover have "name (new_contact row) = []" by (simp add: new_contact_def)
  ultimately show ?case using Cons.IH by (cases row) (simp_all add: index_Cons_0)
qed


subsection \<open>The records of the data rows\<close>

lemma extract_rows_names:
  "extract_rows headers rows = Some contacts \<Longrightarrow> c \<in> set contacts \<Longrightarrow>
   name c \<noteq> [] \<and> is_person_name (name c)"
proof (induction rows arbitrary: contacts)
  case Nil
  then show ?case by simp
next
  case (Cons row rows)
  obtain rest where r: "extract_rows headers rows = Some rest"
    using extract_rows_total by blast
  have ih: "c \<in> set rest \<Longrightarrow> name c \<noteq> [] \<and> is_person_name (name c)"
    using Cons.IH [OF r] .
  from Cons.prems r ih show ?case
    by (cases row) (auto simp: index_Cons_0 split: if_splits option.splits)
qed

lemma extract_rows_members:
  "extract_rows headers rows = Some contacts \<Longrightarrow> c \<in> set contacts \<Longrightarrow>
   \<exists>row\<in>set rows. row_contact headers row = Some c"
proof (induction rows arbitrary: contacts)
  case Nil
  then show ?case by simp
next
  case (Cons row rows)
  obtain rest where r: "extract_rows headers rows = Some rest"
    using extract_rows_total by blast
  have ih: "c \<in> set rest \<Longrightarrow> \<exists>row\<in>set rows. row_contact headers row = Some c"
    using Cons.IH [OF r] .
  from Cons.prems r ih show ?case
    by (cases row) (auto simp: index_Cons_0 split: if_splits option.splits)
qed

lemma assign_field_email: "set (email c) \<subseteq> set (email (assign_field i n header cell emails phones c))"
  by (auto simp: assign_field_def)

lemma assign_field_raw_data: "raw_data (assign_field i n header cell emails phones c) = raw_data c"
  by (simp add: assign_field_def)

lemma map_cell_email:
  "set (email c) \<union> set (find_emails cell) \<subseteq> set (email (map_cell i n header cell c))"
proof -
  let ?c1 = "if find_emails cell \<noteq> [] then c\<lparr>email := email c @ find_emails cell\<rparr> else c"
  have "set (email c) \<union> set (find_emails cell) \<subseteq> set (email ?c1)" by auto
  also have "\<dots> \<subseteq> set (email (assign_field i n header cell (find_emails cell) (find_phones cell) ?c1))"
    by (rule assign_field_email)
  finally show ?thesis by (simp add: map_cell_def Let_def)
qed

lemma map_cell_raw_data: "raw_data (map_cell i n header cell c) = raw_data c"
  by (simp add: map_cell_def Let_def assign_field_raw_data)

lemma map_cells_raw_data:
  "map_cells headers n i cells c = Some c' \<Longrightarrow> raw_data c' = raw_data c"
proof (induction cells arbitrary: i c)
  case Nil
  then show ?case by simp
next
  case (Cons cell cells)
  then show ?case
    by (auto simp: index_def map_cell_raw_data split: if_splits)
qed

lemma map_cells_email_mono:
  "map_cells headers n i cells c = Some c' \<Longrightarrow> set (email c) \<subseteq> set (email c')"
proof (induction cells arbitrary: i c)
  case Nil
  then show ?case by simp
next
  case (Cons cell cells)
  show ?case
  proof (cases "length headers \<le> i \<or> strip cell = []")
    case True
    with Cons show ?thesis by (auto split: if_splits)
  next
    case False
    then have "map_cells headers n (i + 1) cells (map_cell i n (headers ! i) (strip cell) c) = Some c'"
      using Cons.prems by (simp add: index_def)
    then have "set (email (map_cell i n (headers ! i) (strip cell) c)) \<subseteq> set (email c')"
      by (rule Cons.IH)
    with map_cell_email [of c "strip cell" i n "headers ! i"] show ?thesis by blast
  qed
qed

lemma map_cells_emails:
  "map_cells headers n i cells c = Some c' \<Longrightarrow> j < length cells \<Longrightarrow> i + j < length headers \<Longrightarrow>
   strip (cells ! j) \<noteq> [] \<Longrightarrow> set (find_emails (strip (cells ! j))) \<subseteq> set (email c')"
proof (induction cells arbitrary: i c j)
  case Nil
  then show ?case by simp
next
  case (Cons cell cells)
  have i: "i < length headers" using Cons.prems(3) by simp
  show ?case
  proof (cases j)
    case 0
    with Cons.prems i
    have "map_cells headers n (i + 1) cells (map_cell i n (headers ! i) (strip cell) c) = Some c'"
      by (simp add: index_def)
    then have "set (email (map_cell i n (headers ! i) (strip cell) c)) \<subseteq> set (email c')"
      by (rule map_cells_email_mono)
    with map_cell_email [of c "strip cell" i n "headers ! i"] 0 show ?thesis by auto
  next
    case (Suc k)
    from Cons.prems i obtain d where d: "map_cells headers n (i + 1) cells d = Some c'"
      by (auto simp: index_def split: if_splits)
    from Suc Cons.prems have "k < length cells" "i + 1 + k < length headers"
      "strip (cells ! k) \<noteq> []" by auto
    with d have "set (find_emails (strip (cells ! k))) \<subseteq> set (email c')"
      by (rule Cons.IH)
    with Suc show ?thesis by simp
  qed
qed

lemma row_contact_raw_data: "row_contact headers row = Some c \<Longrightarrow> raw_data c = row"
  using map_cells_raw_data [of headers "length row" 0 row "new_contact row" c]
  by (simp add: row_contact_def new_contact_def)

lemma row_contact_emails:
  "row_contact headers row = Some c \<Longrightarrow> i < length row \<Longrightarrow> i < length headers \<Longrightarrow>
   strip (row ! i) \<noteq> [] \<Longrightarrow> set (find_emails (strip (row ! i))) \<subseteq> set (email c)"
  using map_cells_emails [of headers "length row" 0 row "new_contact row" c i]
  by (simp add: row_contact_def)


section \<open>The worked example\<close>

text \<open>
  Claim C1. On the table with the header row Name, Title, Phone and the two data rows
  of Jane Smith and Robert Jones, \<open>is_contact_table\<close> returns true and
  \<open>extract_contact_table\<close> returns two records in row order: each has the name and
  the title of its row and the phone number of its row as the only entry of its phone
  list, while its mobile and email lists, its location and its description are empty.
\<close>

theorem scenario_a:
  "is_contact_table
     [[''Name'', ''Title'', ''Phone''],
      [''Jane Smith'', ''Team Lead'', ''555-123-4567''],
      [''Robert Jones'', ''Analyst'', ''555-987-6543'']] = Some True \<and>
   extract_contact_table
     [[''Name'', ''Title'', ''Phone''],
      [''Jane Smith'', ''Team Lead'', ''555-123-4567''],
      [''Robert Jones'', ''Analyst'', ''555-987-6543'']] =
   Some
     [\<lparr>type = ''team_member'', name = ''Jane Smith'', title = ''Team Lead'',
       phone = [''555-123-4567''], mobile = [], email = [], location = [], description = [],
       raw_data = [''Jane Smith'', ''Team Lead'', ''555-123-4567'']\<rparr>,
      \<lparr>type = ''team_member'', name = ''Robert Jones'', title = ''Analyst'',
       phone = [''555-987-6543''], mobile = [], email = [], location = [], description = [],
       raw_data = [''Robert Jones'', ''Analyst'', ''555-987-6543'']\<rparr>]"
  by code_simp


section \<open>The three gates of the table test\<close>

text \<open>
  Claim C2. For every table, \<open>is_contact_table\<close> returns true exactly when the table
  has at least 2 rows, the lowercased space-joined text of one of its first 3 rows contains
  one of the eight header words, and at least 2 of the rows at the indices 1 to 5 have a
  first cell whose stripped text is a person name; otherwise it returns false.
\<close>

theorem is_contact_table_gates:
  "is_contact_table t =
   Some (2 \<le> length t \<and>
         (\<exists>row\<in>set (take 3 t). \<exists>h\<in>set contact_headers. contains h (lower (join '' '' row))) \<and>
         2 \<le> card {i. 1 \<le> i \<and> i \<le> 5 \<and> i < length t \<and>
                      (\<exists>cell cells. t ! i = cell # cells \<and> is_person_name (strip cell))})"
proof -
  have gate2: "list_ex (\<lambda>b. b) (map (\<lambda>row. any_in contact_headers (row_text row)) (take 3 t))
      \<longleftrightarrow> (\<exists>row\<in>set (take 3 t). \<exists>h\<in>set contact_headers. contains h (lower (join '' '' row)))"
    by (simp add: list_ex_iff any_in_iff row_text_def)
  have gate3: "count_persons (take 5 (drop 1 t)) 0 =
      Some (card {i. 1 \<le> i \<and> i \<le> 5 \<and> i < length t \<and>
                     (\<exists>cell cells. t ! i = cell # cells \<and> is_person_name (strip cell))})"
    using person_rows_card [of person_row t]
    by (simp only: count_persons_filter person_row_iff) simp
  have short: "t = [] \<or> length t < 2 \<longleftrightarrow> \<not> 2 \<le> length t" by auto
  show ?thesis
    unfolding is_contact_table_def gate2 gate3 short by simp
qed


section \<open>Person names\<close>

text \<open>
  Claim C3, with the bound on the whole length added. For every string made of 2 to 4
  tokens joined by single spaces, each token of 2 to 20 ASCII letters, whose lowercased
  text contains no word of the denylist, which has an uppercase letter and is at most 50
  characters long, \<open>is_person_name\<close> returns true. For every string that contains a
  digit, an underscore or a word of the denylist (in the string itself or in its
  lowercased text), it returns false.
\<close>

theorem is_person_name_tokens:
  "(2 \<le> length tokens \<and> length tokens \<le> 4 \<and> list_all alpha_token tokens \<and>
    \<not> any_in non_person_words (lower (join '' '' tokens)) \<and>
    list_ex isupper (join '' '' tokens) \<and> length (join '' '' tokens) \<le> 50
      \<longrightarrow> is_person_name (join '' '' tokens)) \<and>
   (list_ex digit text \<or> CHR ''_'' \<in> set text \<or> any_in non_person_words text \<or>
    any_in non_person_words (lower text)
      \<longrightarrow> \<not> is_person_name text)"
proof (intro conjI impI)
  let ?s = "join '' '' tokens"
  assume a: "2 \<le> length tokens \<and> length tokens \<le> 4 \<and> list_all alpha_token tokens \<and>
    \<not> any_in non_person_words (lower ?s) \<and> list_ex isupper ?s \<and> length ?s \<le> 50"
  then have tok: "list_all alpha_token tokens" by simp
  have letters: "list_all (list_all ascii_letter) tokens"
    using tok by (simp add: list_all_iff alpha_token_def)
  have "list_all (\<lambda>w. w \<noteq> [] \<and> list_all (\<lambda>c. \<not> isspace c) w) tokens"
    using tok ascii_letter_not_space
    by (auto simp: list_all_iff alpha_token_def word_ok_def)
  then have sp: "split ?s = tokens" by (rule split_join)
  have "list_all (list_all name_char) tokens"
    using letters ascii_letter_name_char by (auto simp: list_all_iff)
  moreover have "list_all name_char '' ''" by code_simp
  ultimately have chars: "list_all name_char ?s" by (intro list_all_join)
  obtain x y ys where t: "tokens = x # y # ys"
    using a by (cases tokens; cases "tl tokens") auto
  have "2 \<le> length x" using tok t by (simp add: alpha_token_def word_ok_def)
  then have len: "2 \<le> length ?s" using t by simp
  then have ne: "?s \<noteq> []" by auto
  have m: "re_match name_pattern ?s" using ne chars by (simp add: re_match_name_pattern)
  have ok: "list_all word_ok tokens" using tok by (simp add: list_all_iff alpha_token_def)
  show "is_person_name ?s"
    using a len ne m ok unfolding is_person_name_def sp by auto
next
  assume b: "list_ex digit text \<or> CHR ''_'' \<in> set text \<or> any_in non_person_words text \<or>
    any_in non_person_words (lower text)"
  then consider "\<not> list_all name_char text" | "any_in non_person_words (lower text)"
    using digit_not_name_char underscore_not_name_char any_in_lower
    by (auto simp: list_ex_iff list_all_iff)
  then show "\<not> is_person_name text"
  proof cases
    case 1
    then have "\<not> re_match name_pattern text" by (simp add: re_match_name_pattern)
    then show ?thesis by (simp add: is_person_name_def)
  next
    case 2
    then show ?thesis by (simp add: is_person_name_def)
  qed
qed

text \<open>
  The theorem at the name Jane Smith and at a string with digits.
\<close>

theorem is_person_name_tokens_witness:
  "2 \<le> length [''Jane'', ''Smith''] \<and> length [''Jane'', ''Smith''] \<le> 4 \<and>
   list_all alpha_token [''Jane'', ''Smith''] \<and>
   \<not> any_in non_person_words (lower (join '' '' [''Jane'', ''Smith''])) \<and>
   list_ex isupper (join '' '' [''Jane'', ''Smith'']) \<and>
   length (join '' '' [''Jane'', ''Smith'']) \<le> 50 \<and>
   is_person_name (join '' '' [''Jane'', ''Smith'']) \<and>
   list_ex digit ''Agent 007'' \<and> \<not> is_person_name ''Agent 007''"
proof -
  have h1: "2 \<le> length [''Jane'', ''Smith''] \<and> length [''Jane'', ''Smith''] \<le> 4 \<and>
    list_all alpha_token [''Jane'', ''Smith''] \<and>
    \<not> any_in non_person_words (lower (join '' '' [''Jane'', ''Smith''])) \<and>
    list_ex isupper (join '' '' [''Jane'', ''Smith'']) \<and>
    length (join '' '' [''Jane'', ''Smith'']) \<le> 50"
    by code_simp
  have h2: "list_ex digit ''Agent 007''" by code_simp
  from is_person_name_tokens [of "[''Jane'', ''Smith'']" "''Agent 007''"] h1 h2
  show ?thesis by blast
qed

text \<open>
  Without the bound on the length the first half fails: three capitalised tokens of 20
  letters each satisfy every condition on the tokens, and the string of 62 characters
  is rejected by the test \<^verbatim>\<open>len(text) > 50\<close>.
\<close>

theorem long_name_rejected:
  "list_all alpha_token
     [''Aaaaaaaaaaaaaaaaaaaa'', ''Bbbbbbbbbbbbbbbbbbbb'', ''Cccccccccccccccccccc''] \<and>
   join '' '' [''Aaaaaaaaaaaaaaaaaaaa'', ''Bbbbbbbbbbbbbbbbbbbb'', ''Cccccccccccccccccccc''] =
     ''Aaaaaaaaaaaaaaaaaaaa Bbbbbbbbbbbbbbbbbbbb Cccccccccccccccccccc'' \<and>
   any_in non_person_words
     (lower ''Aaaaaaaaaaaaaaaaaaaa Bbbbbbbbbbbbbbbbbbbb Cccccccccccccccccccc'') = False \<and>
   list_ex isupper ''Aaaaaaaaaaaaaaaaaaaa Bbbbbbbbbbbbbbbbbbbb Cccccccccccccccccccc'' \<and>
   re_match name_pattern ''Aaaaaaaaaaaaaaaaaaaa Bbbbbbbbbbbbbbbbbbbb Cccccccccccccccccccc'' \<and>
   length ''Aaaaaaaaaaaaaaaaaaaa Bbbbbbbbbbbbbbbbbbbb Cccccccccccccccccccc'' = 62 \<and>
   is_person_name ''Aaaaaaaaaaaaaaaaaaaa Bbbbbbbbbbbbbbbbbbbb Cccccccccccccccccccc'' = False"
  by code_simp


section \<open>Every record has a valid name\<close>

text \<open>
  Claim C4. For every table, \<open>extract_contact_table\<close> returns a list of records each
  of which has a name that is not empty and is a person name; and a table for which
  \<open>is_contact_table\<close> returns false yields no record.
\<close>

theorem extracted_names_valid:
  "(\<exists>contacts. extract_contact_table t = Some contacts \<and>
      list_all (\<lambda>c. name c \<noteq> [] \<and> is_person_name (name c)) contacts) \<and>
   (is_contact_table u = Some False \<longrightarrow> extract_contact_table u = Some [])"
proof (intro conjI impI)
  show "\<exists>contacts. extract_contact_table t = Some contacts \<and>
      list_all (\<lambda>c. name c \<noteq> [] \<and> is_person_name (name c)) contacts"
  proof (cases "is_contact_table t = Some True")
    case True
    then have "t \<noteq> []" by (auto simp: is_contact_table_def)
    then obtain headers start_row where h: "locate_headers t = Some (headers, start_row)"
      using locate_headers_total by fastforce
    obtain contacts where c: "extract_rows headers (drop start_row t) = Some contacts"
      using extract_rows_total by blast
    have "list_all (\<lambda>c. name c \<noteq> [] \<and> is_person_name (name c)) contacts"
      using extract_rows_names [OF c] by (simp add: list_all_iff)
    then show ?thesis using True h c by (simp add: extract_contact_table_def)
  next
    case False
    then have "is_contact_table t = Some False"
      using is_contact_table_cases [of t] by blast
    then show ?thesis by (simp add: extract_contact_table_def)
  qed
next
  assume "is_contact_table u = Some False"
  then show "extract_contact_table u = Some []" by (simp add: extract_contact_table_def)
qed

text \<open>
  The theorem at a table of two persons and at a table of procedure steps.
\<close>

theorem extracted_names_valid_witness:
  "(\<exists>contacts.
      extract_contact_table
        [[''Name'', ''Phone''], [''Jane Smith'', ''555-123-4567''],
         [''Robert Jones'', ''555-987-6543'']] = Some contacts \<and>
      list_all (\<lambda>c. name c \<noteq> [] \<and> is_person_name (name c)) contacts) \<and>
   is_contact_table [[''Step'', ''Action''], [''1'', ''Notify manager''], [''2'', ''Escalate to IT'']]
     = Some False \<and>
   extract_contact_table
     [[''Step'', ''Action''], [''1'', ''Notify manager''], [''2'', ''Escalate to IT'']] = Some []"
proof -
  have h: "is_contact_table
      [[''Step'', ''Action''], [''1'', ''Notify manager''], [''2'', ''Escalate to IT'']] = Some False"
    by code_simp
  from extracted_names_valid
    [of "[[''Name'', ''Phone''], [''Jane Smith'', ''555-123-4567''],
          [''Robert Jones'', ''555-987-6543'']]"
        "[[''Step'', ''Action''], [''1'', ''Notify manager''], [''2'', ''Escalate to IT'']]"] h
  show ?thesis by blast
qed


section \<open>The header row\<close>

text \<open>
  Claim C5, with the header search as the extractor runs it. For every table that
  \<open>is_contact_table\<close> accepts and in which some row's lowercased space-joined text
  contains one of the six words name, title, phone, mobile, email, contact, the extractor
  takes the first such row of the whole table as the header row, records its cells,
  lowercased and stripped, as the headers, and builds its records from the rows after
  that row only.
\<close>

theorem header_row_located:
  "is_contact_table t = Some True \<and> k < length t \<and>
   any_in header_words (row_text (t ! k)) \<and> list_all no_header_word (take k t)
     \<longrightarrow> locate_headers t = Some (header_of (t ! k), k + 1) \<and>
         extract_contact_table t = extract_rows (header_of (t ! k)) (drop (k + 1) t)"
proof
  assume a: "is_contact_table t = Some True \<and> k < length t \<and>
   any_in header_words (row_text (t ! k)) \<and> list_all no_header_word (take k t)"
  then have "find_header t 0 = (header_of (t ! k), int (0 + k))"
    by (intro find_header_first) auto
  then have l: "locate_headers t = Some (header_of (t ! k), k + 1)"
    by (simp add: locate_headers_def nat_add_distrib)
  with a show "locate_headers t = Some (header_of (t ! k), k + 1) \<and>
         extract_contact_table t = extract_rows (header_of (t ! k)) (drop (k + 1) t)"
    by (simp add: extract_contact_table_def)
qed

text \<open>
  The theorem at the table of the worked example, whose header row is row 0.
\<close>

theorem header_row_located_witness:
  "is_contact_table staff_table = Some True \<and> 0 < length staff_table \<and>
   any_in header_words (row_text (staff_table ! 0)) \<and>
   list_all no_header_word (take 0 staff_table) \<and>
   locate_headers staff_table = Some (header_of (staff_table ! 0), 0 + 1) \<and>
   extract_contact_table staff_table =
     extract_rows (header_of (staff_table ! 0)) (drop (0 + 1) staff_table) \<and>
   header_of (staff_table ! 0) = [''name'', ''title'', ''phone'']"
proof -
  have h1: "is_contact_table staff_table = Some True" by code_simp
  have h2: "any_in header_words (row_text (staff_table ! 0))" by code_simp
  have h3: "header_of (staff_table ! 0) = [''name'', ''title'', ''phone'']" by code_simp
  have h4: "0 < length staff_table" by code_simp
  have h5: "list_all no_header_word (take 0 staff_table)" by simp
  from header_row_located [of staff_table 0] h1 h2 h3 h4 h5 show ?thesis by blast
qed

text \<open>
  The header search neither uses the eight words of \<open>is_contact_table\<close> nor stops
  after 3 rows. The table below is accepted because row 0 holds the words team member and
  role; neither is one of the six words of the search, which goes on to row 3, takes it as
  the header row and leaves no data row.
\<close>

theorem header_search_counterexample:
  "is_contact_table
     [[''Team Member'', ''Role''], [''Jane Smith'', ''Lead''], [''Robert Jones'', ''Analyst''],
      [''Phone list'', ''Front desk'']] = Some True \<and>
   any_in contact_headers (row_text [''Team Member'', ''Role'']) \<and>
   locate_headers
     [[''Team Member'', ''Role''], [''Jane Smith'', ''Lead''], [''Robert Jones'', ''Analyst''],
      [''Phone list'', ''Front desk'']] = Some ([''phone list'', ''front desk''], 4) \<and>
   extract_contact_table
     [[''Team Member'', ''Role''], [''Jane Smith'', ''Lead''], [''Robert Jones'', ''Analyst''],
      [''Phone list'', ''Front desk'']] = Some []"
  by code_simp


section \<open>Positional headers\<close>

text \<open>
  Claim C6, with the guard on the width of row 0. For every table that
  \<open>is_contact_table\<close> accepts and in which no row holds one of the six words of the
  header search: when row 0 has at least 3 columns, the headers are name, title,
  contact_info, field_3, field_4 and so on, one for each column of row 0, and the
  records are built from all rows, row 0 included; when row 0 has fewer than 3 columns,
  the headers stay empty and no record is produced.
\<close>

theorem positional_headers_inferred:
  "(is_contact_table t = Some True \<and> list_all no_header_word t \<and> 3 \<le> length (t ! 0)
      \<longrightarrow> locate_headers t = Some (positional_headers (length (t ! 0)), 0) \<and>
          length (positional_headers (length (t ! 0))) = length (t ! 0) \<and>
          extract_contact_table t = extract_rows (positional_headers (length (t ! 0))) t) \<and>
   (is_contact_table u = Some True \<and> list_all no_header_word u \<and> length (u ! 0) < 3
      \<longrightarrow> locate_headers u = Some ([], 0) \<and> extract_contact_table u = Some [])"
proof (intro conjI impI)
  assume a: "is_contact_table t = Some True \<and> list_all no_header_word t \<and> 3 \<le> length (t ! 0)"
  then have "t \<noteq> []" by (auto simp: is_contact_table_def)
  then obtain row0 rows where t: "t = row0 # rows" by (cases t) auto
  have f: "find_header t 0 = ([], - 1)" using a by (intro find_header_none) simp
  show l: "locate_headers t = Some (positional_headers (length (t ! 0)), 0)"
    using a f t by (simp add: locate_headers_def index_Cons_0 positional_headers_def)
  have "3 \<le> length (t ! 0)" using a by simp
  then show "length (positional_headers (length (t ! 0))) = length (t ! 0)"
    by (simp add: positional_headers_def)
  show "extract_contact_table t = extract_rows (positional_headers (length (t ! 0))) t"
    using a l by (simp add: extract_contact_table_def)
next
  assume a: "is_contact_table u = Some True \<and> list_all no_header_word u \<and> length (u ! 0) < 3"
  then have "u \<noteq> []" by (auto simp: is_contact_table_def)
  then obtain row0 rows where u: "u = row0 # rows" by (cases u) auto
  have f: "find_header u 0 = ([], - 1)" using a by (intro find_header_none) simp
  show l: "locate_headers u = Some ([], 0)"
    using a f u by (simp add: locate_headers_def index_Cons_0)
  show "extract_contact_table u = Some []"
    using a l by (simp add: extract_contact_table_def extract_rows_no_headers)
qed

text \<open>
  The theorem at a table of three columns and at a table of two columns, both headed by
  the words team member and role.
\<close>

theorem positional_headers_inferred_witness:
  "is_contact_table role_table = Some True \<and> list_all no_header_word role_table \<and>
   3 \<le> length (role_table ! 0) \<and>
   locate_headers role_table = Some (positional_headers (length (role_table ! 0)), 0) \<and>
   length (positional_headers (length (role_table ! 0))) = length (role_table ! 0) \<and>
   extract_contact_table role_table =
     extract_rows (positional_headers (length (role_table ! 0))) role_table \<and>
   positional_headers (length (role_table ! 0)) = [''name'', ''title'', ''contact_info''] \<and>
   is_contact_table narrow_role_table = Some True \<and>
   list_all no_header_word narrow_role_table \<and> length (narrow_role_table ! 0) < 3 \<and>
   locate_headers narrow_role_table = Some ([], 0) \<and>
   extract_contact_table narrow_role_table = Some []"
proof -
  have t1: "is_contact_table role_table = Some True" by code_simp
  have t2: "list_all no_header_word role_table" by code_simp
  have t3: "3 \<le> length (role_table ! 0)" by code_simp
  have t4: "positional_headers (length (role_table ! 0)) = [''name'', ''title'', ''contact_info'']"
    by code_simp
  have u1: "is_contact_table narrow_role_table = Some True" by code_simp
  have u2: "list_all no_header_word narrow_role_table" by code_simp
  have u3: "length (narrow_role_table ! 0) < 3" by code_simp
  from positional_headers_inferred [of role_table narrow_role_table] t1 t2 t3 t4 u1 u2 u3
  show ?thesis by blast
qed

text \<open>
  On the table of two columns the headers are not name and title: they are empty, and
  the two rows that those two headers would turn into records are lost.
\<close>

theorem two_column_table_counterexample:
  "is_contact_table
     [[''Team Member'', ''Role''], [''Jane Smith'', ''Lead''], [''Robert Jones'', ''Analyst'']]
     = Some True \<and>
   find_header
     [[''Team Member'', ''Role''], [''Jane Smith'', ''Lead''], [''Robert Jones'', ''Analyst'']] 0
     = ([], - 1) \<and>
   locate_headers
     [[''Team Member'', ''Role''], [''Jane Smith'', ''Lead''], [''Robert Jones'', ''Analyst'']]
     = Some ([], 0) \<and>
   extract_rows [''name'', ''title'']
     [[''Team Member'', ''Role''], [''Jane Smith'', ''Lead''], [''Robert Jones'', ''Analyst'']]
     = Some
        [\<lparr>type = ''team_member'', name = ''Jane Smith'', title = ''Lead'', phone = [],
          mobile = [], email = [], location = [], description = [],
          raw_data = [''Jane Smith'', ''Lead'']\<rparr>,
         \<lparr>type = ''team_member'', name = ''Robert Jones'', title = ''Analyst'', phone = [],
          mobile = [], email = [], location = [], description = [],
          raw_data = [''Robert Jones'', ''Analyst'']\<rparr>] \<and>
   extract_contact_table
     [[''Team Member'', ''Role''], [''Jane Smith'', ''Lead''], [''Robert Jones'', ''Analyst'']]
     = Some []"
  by code_simp


section \<open>Tables of fewer than two rows, and failures\<close>

text \<open>
  Claim C7. For every table of fewer than 2 rows \<open>is_contact_table\<close> returns false
  and \<open>extract_contact_table\<close> returns the empty list; and for every table both
  functions return a value: no index is read out of range.
\<close>

theorem short_tables_and_totality:
  "(length t < 2 \<longrightarrow> is_contact_table t = Some False \<and> extract_contact_table t = Some []) \<and>
   (\<exists>b. is_contact_table u = Some b) \<and>
   (\<exists>contacts. extract_contact_table u = Some contacts)"
proof (intro conjI impI)
  assume "length t < 2"
  then show "is_contact_table t = Some False" by (simp add: is_contact_table_def)
  then show "extract_contact_table t = Some []" by (simp add: extract_contact_table_def)
next
  show "\<exists>b. is_contact_table u = Some b"
    by (rule is_contact_table_total)
next
  show "\<exists>contacts. extract_contact_table u = Some contacts"
  proof (cases "is_contact_table u = Some True")
    case True
    then have "u \<noteq> []" by (auto simp: is_contact_table_def)
    then obtain headers start_row where "locate_headers u = Some (headers, start_row)"
      using locate_headers_total by fastforce
    then show ?thesis
      using True extract_rows_total [of headers "drop start_row u"]
      by (simp add: extract_contact_table_def)
  next
    case False
    then have "is_contact_table u = Some False"
      using is_contact_table_cases [of u] by blast
    then show ?thesis by (simp add: extract_contact_table_def)
  qed
qed

text \<open>
  The theorem at a table of one row and at a table of two rows.
\<close>

theorem short_tables_and_totality_witness:
  "length [[''Name'', ''Phone'']] < 2 \<and>
   is_contact_table [[''Name'', ''Phone'']] = Some False \<and>
   extract_contact_table [[''Name'', ''Phone'']] = Some [] \<and>
   (\<exists>b. is_contact_table [[''Name'', ''Phone''], [''Jane Smith'', ''555-123-4567'']] = Some b) \<and>
   (\<exists>contacts.
      extract_contact_table [[''Name'', ''Phone''], [''Jane Smith'', ''555-123-4567'']]
        = Some contacts)"
  using short_tables_and_totality
    [of "[[''Name'', ''Phone'']]" "[[''Name'', ''Phone''], [''Jane Smith'', ''555-123-4567'']]"]
  by simp


section \<open>Phone numbers under an unrecognised header\<close>

text \<open>
  Claim C8, with the column index and the word mobile in the cell. For every cell at a
  column index of 2 or more whose header contains none of the words of the field mapping
  and whose stripped text has a match of a phone pattern and none of the email pattern,
  the numbers found are appended to the mobile list when the lowercased cell contains
  the word mobile or the phone list already has an entry, and to the phone list
  otherwise; nothing else of the record changes.
\<close>

theorem unlabelled_phone_cell:
  "2 \<le> i \<and> \<not> any_in field_words header \<and> find_emails cell = [] \<and> find_phones cell \<noteq> []
     \<longrightarrow> map_cell i n header cell c =
         (if contains ''mobile'' (lower cell) \<or> phone c \<noteq> []
          then c\<lparr>mobile := mobile c @ find_phones cell\<rparr>
          else c\<lparr>phone := phone c @ find_phones cell\<rparr>)"
  by (auto simp: map_cell_def assign_field_def any_in_def field_words_def Let_def)

text \<open>
  The theorem at a cell that holds a phone number, under the header ext.
\<close>

theorem unlabelled_phone_cell_witness:
  "2 \<le> (2::nat) \<and> \<not> any_in field_words ''ext'' \<and> find_emails ''555-123-4567'' = [] \<and>
   find_phones ''555-123-4567'' \<noteq> [] \<and>
   map_cell 2 3 ''ext'' ''555-123-4567'' (new_contact []) =
     (if contains ''mobile'' (lower ''555-123-4567'') \<or> phone (new_contact []) \<noteq> []
      then (new_contact [])\<lparr>mobile := mobile (new_contact []) @ find_phones ''555-123-4567''\<rparr>
      else (new_contact [])\<lparr>phone := phone (new_contact []) @ find_phones ''555-123-4567''\<rparr>)"
proof -
  have h1: "\<not> any_in field_words ''ext''" by code_simp
  have h2: "find_emails ''555-123-4567'' = []" by code_simp
  have h3: "find_phones ''555-123-4567'' \<noteq> []" by code_simp
  have h4: "2 \<le> (2::nat)" by simp
  from unlabelled_phone_cell [of 2 "''ext''" "''555-123-4567''" 3 "new_contact []"] h1 h2 h3 h4
  show ?thesis by blast
qed

text \<open>
  The phone list alone does not decide: the cell below is the first with a phone number
  in its row, the phone list is empty when it is read, and its number goes to the mobile
  list because the cell holds the word mobile.
\<close>

theorem mobile_keyword_counterexample:
  "any_in field_words ''info'' = False \<and>
   find_emails ''Mobile 555-123-4567'' = [] \<and>
   find_phones ''Mobile 555-123-4567'' = [''555-123-4567''] \<and>
   phone (new_contact [''Jane Smith'', ''Lead'', ''Mobile 555-123-4567'']) = [] \<and>
   extract_contact_table
     [[''Name'', ''Title'', ''Info''], [''Jane Smith'', ''Lead'', ''Mobile 555-123-4567''],
      [''Robert Jones'', ''Analyst'', ''555-987-6543'']] =
   Some
     [\<lparr>type = ''team_member'', name = ''Jane Smith'', title = ''Lead'', phone = [],
       mobile = [''555-123-4567''], email = [], location = [], description = [],
       raw_data = [''Jane Smith'', ''Lead'', ''Mobile 555-123-4567'']\<rparr>,
      \<lparr>type = ''team_member'', name = ''Robert Jones'', title = ''Analyst'',
       phone = [''555-987-6543''], mobile = [], email = [], location = [], description = [],
       raw_data = [''Robert Jones'', ''Analyst'', ''555-987-6543'']\<rparr>]"
  by code_simp


section \<open>An ordinary name that the denylist rejects\<close>

text \<open>
  Claim C9. The string Matthew Smith is made of two capitalised alphabetic words of
  lengths 7 and 5, is shorter than 50 characters and matches the name pattern, and yet
  \<open>is_person_name\<close> returns false for it: the denylist holds the word the, the test is
  containment in the lowercased text, and matthew contains the. No other word of the
  denylist occurs in it.
\<close>

theorem matthew_smith_rejected:
  "is_person_name ''Matthew Smith'' = False \<and>
   split ''Matthew Smith'' = [''Matthew'', ''Smith''] \<and>
   list_all ascii_letter ''Matthew'' \<and> list_all ascii_letter ''Smith'' \<and>
   isupper CHR ''M'' \<and> isupper CHR ''S'' \<and>
   list_all word_ok (split ''Matthew Smith'') \<and>
   length ''Matthew Smith'' < 50 \<and>
   re_match name_pattern ''Matthew Smith'' \<and>
   List.member non_person_words ''the'' \<and>
   contains ''the'' (lower ''Matthew Smith'') \<and>
   any_in (removeAll ''the'' non_person_words) (lower ''Matthew Smith'') = False"
  by code_simp


section \<open>Email addresses in any column\<close>

text \<open>
  Claim C10, for the cells that have a header. For every record that
  \<open>extract_contact_table\<close> returns, the record comes from one of the data rows, and
  every match of the email pattern in a cell of that row that is not blank and whose
  index is below the number of headers is in the email list of the record, whatever the
  header of the cell.
\<close>

theorem emails_of_headed_cells:
  "extract_contact_table t = Some contacts \<and> c \<in> set contacts \<and>
   locate_headers t = Some (headers, start_row) \<and>
   i < length (raw_data c) \<and> i < length headers \<and> strip (raw_data c ! i) \<noteq> []
     \<longrightarrow> raw_data c \<in> set (drop start_row t) \<and>
         set (find_emails (strip (raw_data c ! i))) \<subseteq> set (email c)"
proof
  assume a: "extract_contact_table t = Some contacts \<and> c \<in> set contacts \<and>
   locate_headers t = Some (headers, start_row) \<and>
   i < length (raw_data c) \<and> i < length headers \<and> strip (raw_data c ! i) \<noteq> []"
  then have "contacts \<noteq> []" by auto
  with a have "is_contact_table t = Some True"
    using is_contact_table_cases [of t] by (auto simp: extract_contact_table_def)
  with a have "extract_rows headers (drop start_row t) = Some contacts"
    by (auto simp: extract_contact_table_def)
  with a obtain row where row: "row \<in> set (drop start_row t)" "row_contact headers row = Some c"
    using extract_rows_members by blast
  then have raw: "raw_data c = row" using row_contact_raw_data by blast
  with a row row_contact_emails [of headers row c i]
  show "raw_data c \<in> set (drop start_row t) \<and>
         set (find_emails (strip (raw_data c ! i))) \<subseteq> set (email c)"
    by simp
qed

text \<open>
  The theorem at a row whose title cell holds an email address.
\<close>

theorem emails_of_headed_cells_witness:
  "extract_contact_table mail_table = Some [jane_record, robert_record] \<and>
   jane_record \<in> set [jane_record, robert_record] \<and>
   locate_headers mail_table = Some ([''name'', ''role'', ''phone''], 1) \<and>
   1 < length (raw_data jane_record) \<and> 1 < length [''name'', ''role'', ''phone''] \<and>
   strip (raw_data jane_record ! 1) \<noteq> [] \<and>
   raw_data jane_record \<in> set (drop 1 mail_table) \<and>
   set (find_emails (strip (raw_data jane_record ! 1))) \<subseteq> set (email jane_record) \<and>
   find_emails (strip (raw_data jane_record ! 1)) = [''jane@example.com'']"
proof -
  have h1: "extract_contact_table mail_table = Some [jane_record, robert_record]" by code_simp
  have h2: "jane_record \<in> set [jane_record, robert_record]" by simp
  have h3: "locate_headers mail_table = Some ([''name'', ''role'', ''phone''], 1)" by code_simp
  have h4: "1 < length (raw_data jane_record)" by code_simp
  have h5: "1 < length [''name'', ''role'', ''phone'']" by simp
  have h6: "strip (raw_data jane_record ! 1) \<noteq> []" by code_simp
  have h7: "find_emails (strip (raw_data jane_record ! 1)) = [''jane@example.com'']" by code_simp
  from emails_of_headed_cells
    [of mail_table "[jane_record, robert_record]" jane_record "[''name'', ''role'', ''phone'']" 1 1]
    h1 h2 h3 h4 h5 h6 h7
  show ?thesis by blast
qed

text \<open>
  The loop over the cells stops at the first index without a header, so the addresses
  in the third column of a table with two headers are not collected.
\<close>

theorem unheaded_email_counterexample:
  "find_emails (strip ''jane@example.com'') = [''jane@example.com''] \<and>
   locate_headers
     [[''Name'', ''Title''], [''Jane Smith'', ''Lead'', ''jane@example.com''],
      [''Robert Jones'', ''Analyst'', ''robert@example.com'']] = Some ([''name'', ''title''], 1) \<and>
   extract_contact_table
     [[''Name'', ''Title''], [''Jane Smith'', ''Lead'', ''jane@example.com''],
      [''Robert Jones'', ''Analyst'', ''robert@example.com'']] =
   Some
     [\<lparr>type = ''team_member'', name = ''Jane Smith'', title = ''Lead'', phone = [],
       mobile = [], email = [], location = [], description = [],
       raw_data = [''Jane Smith'', ''Lead'', ''jane@example.com'']\<rparr>,
      \<lparr>type = ''team_member'', name = ''Robert Jones'', title = ''Analyst'', phone = [],
       mobile = [], email = [], location = [], description = [],
       raw_data = [''Robert Jones'', ''Analyst'', ''robert@example.com'']\<rparr>]"
  by code_simp

end
